theory Spec2Isabelle
  imports Main
begin

section \<open>The Pyright client extension (client/src/extension.ts)\<close>

text \<open>
  The extension keeps one module-level registry, \<^verbatim>\<open>clients: Map<string, LanguageClient>\<close>,
  and reacts to three things: its own activation, the editor's document-opened and
  workspace-folders-changed notifications, and its deactivation. Every handler is
  synchronous, so a handler is a function from the extension's state to its next state.
  The editor (\<^verbatim>\<open>vscode\<close>) and the language client library are not part of the repository:
  the editor's \<^verbatim>\<open>Workspace\<close> object is a value the handlers read, and the calls the code
  makes on a \<^verbatim>\<open>LanguageClient\<close> are recorded, in order, in a trace.
\<close>

subsection \<open>A JavaScript \<^verbatim>\<open>Map\<close>\<close>

text \<open>
  A \<^verbatim>\<open>Map\<close> iterates in insertion order; \<^verbatim>\<open>set\<close> on a key that is present keeps the key's
  position and replaces its value, \<^verbatim>\<open>set\<close> on a new key appends. The registry is therefore
  an association list, and uniqueness of its keys is a property to prove, not a
  property of the type.
\<close>

type_synonym ('k, 'v) js_map = "('k \<times> 'v) list"

definition Map_has :: "('k, 'v) js_map \<Rightarrow> 'k \<Rightarrow> bool" where
  "Map_has m k = (k \<in> set (map fst m))"

definition Map_get :: "('k, 'v) js_map \<Rightarrow> 'k \<Rightarrow> 'v option" where
  "Map_get m k = map_of m k"

fun Map_set :: "('k, 'v) js_map \<Rightarrow> 'k \<Rightarrow> 'v \<Rightarrow> ('k, 'v) js_map" where
  "Map_set [] k v = [(k, v)]"
| "Map_set ((k', v') # m) k v = (if k' = k then (k, v) # m else (k', v') # Map_set m k v)"

definition Map_delete :: "('k, 'v) js_map \<Rightarrow> 'k \<Rightarrow> ('k, 'v) js_map" where
  "Map_delete m k = filter (\<lambda>e. fst e \<noteq> k) m"

definition Map_values :: "('k, 'v) js_map \<Rightarrow> 'v list" where
  "Map_values m = map snd m"

subsection \<open>What the code reads from the editor\<close>

text \<open>Of a \<^verbatim>\<open>Uri\<close> the code reads \<^verbatim>\<open>scheme\<close>, \<^verbatim>\<open>fsPath\<close> and \<^verbatim>\<open>toString()\<close>.\<close>

record uri =
  scheme :: string
  fsPath :: string
  toString :: string

record textDocument =
  languageId :: string
  doc_uri :: uri

record workspaceFolder =
  folder_uri :: uri
  folder_name :: string

text \<open>
  \<^verbatim>\<open>Workspace.workspaceFolders\<close> and \<^verbatim>\<open>Workspace.rootPath\<close> may be \<^verbatim>\<open>undefined\<close>;
  \<^verbatim>\<open>Workspace.getWorkspaceFolder\<close> is the editor's lookup of the folder that contains a
  resource, \<^verbatim>\<open>undefined\<close> when there is none.
\<close>

record workspace =
  workspaceFolders :: "workspaceFolder list option"
  textDocuments :: "textDocument list"
  rootPath :: "string option"
  getWorkspaceFolder :: "uri \<Rightarrow> workspaceFolder option"

record workspaceFoldersChangeEvent =
  added :: "workspaceFolder list"
  removed :: "workspaceFolder list"

subsection \<open>Language clients\<close>

record documentFilter =
  filter_scheme :: string
  filter_language :: string
  filter_pattern :: "string option"

text \<open>
  The options of a client. The output channel is the one channel created at
  activation, the same for every client, and is left out.
\<close>

record languageClientOptions =
  documentSelector :: "documentFilter list"
  configurationSection :: string
  workspaceFolder :: "workspaceFolder option"

text \<open>
  A \<^verbatim>\<open>LanguageClient\<close> is an object: it is identified by the order of its creation
  (the first client is 0). A trace entry is one call of the code on the registry or on
  a client; \<open>StopSettled\<close> is the editor's side: the promise that a client's
  \<^verbatim>\<open>stop()\<close> returned has settled.
\<close>

type_synonym languageClient = nat

datatype action =
    ClientNew languageClient languageClientOptions
  | ClientStart languageClient
  | ClientStop languageClient
  | ClientsSet string languageClient
  | ClientsDelete string
  | StopSettled languageClient

datatype disposable = StartDisposable languageClient | ProgressReporting languageClient

subsection \<open>The state of the extension\<close>

record extension =
  clients :: "(string, languageClient) js_map"
  created :: nat
  subscriptions :: "disposable list"
  openListener :: bool
  foldersListener :: bool
  trace :: "action list"

text \<open>The module as loaded: an empty registry, nothing created, no listener.\<close>

definition initial :: extension where
  "initial = \<lparr>clients = [], created = 0, subscriptions = [], openListener = False,
     foldersListener = False, trace = []\<rparr>"

subsection \<open>\<^verbatim>\<open>activate\<close> and its closures\<close>

text \<open>
  \<^verbatim>\<open>runLanguageClient\<close>: creates a client, starts it, pushes the start's disposable and a
  progress reporter to the context's subscriptions, and returns the client.
\<close>

definition runLanguageClient ::
  "languageClientOptions \<Rightarrow> extension \<Rightarrow> languageClient \<times> extension" where
  "runLanguageClient clientOptions st =
     (let languageClient = created st
      in (languageClient,
          st\<lparr>created := Suc languageClient,
             subscriptions := subscriptions st @
               [StartDisposable languageClient, ProgressReporting languageClient],
             trace := trace st @
               [ClientNew languageClient clientOptions, ClientStart languageClient]\<rparr>))"

definition onDemandOptions :: "workspaceFolder \<Rightarrow> languageClientOptions" where
  "onDemandOptions folder =
     \<lparr>documentSelector =
        [\<lparr>filter_scheme = ''file'', filter_language = ''python'',
          filter_pattern = Some (fsPath (folder_uri folder) @ ''/**/*'')\<rparr>],
      configurationSection = ''python'',
      workspaceFolder = Some folder\<rparr>"

definition runLanguageClientOnDemand :: "workspace \<Rightarrow> textDocument \<Rightarrow> extension \<Rightarrow> extension" where
  "runLanguageClientOnDemand ws document st =
     (if \<not> (languageId document = ''python'' \<and> scheme (doc_uri document) = ''file'') then st
      else case getWorkspaceFolder ws (doc_uri document) of
        None \<Rightarrow> st
      | Some folder \<Rightarrow>
          if Map_has (clients st) (toString (folder_uri folder)) then st
          else
            let (languageClient, st1) = runLanguageClient (onDemandOptions folder) st
            in st1\<lparr>clients := Map_set (clients st1) (toString (folder_uri folder)) languageClient,
                   trace := trace st1 @
                     [ClientsSet (toString (folder_uri folder)) languageClient]\<rparr>)"

text \<open>The body of the loop over \<^verbatim>\<open>event.removed\<close>, and the listener that runs it.\<close>

definition stopRemovedFolder :: "workspaceFolder \<Rightarrow> extension \<Rightarrow> extension" where
  "stopRemovedFolder folder st =
     (case Map_get (clients st) (toString (folder_uri folder)) of
        None \<Rightarrow> st
      | Some client \<Rightarrow>
          st\<lparr>clients := Map_delete (clients st) (toString (folder_uri folder)),
             trace := trace st @
               [ClientsDelete (toString (folder_uri folder)), ClientStop client]\<rparr>)"

definition onDidChangeWorkspaceFolders :: "workspaceFoldersChangeEvent \<Rightarrow> extension \<Rightarrow> extension" where
  "onDidChangeWorkspaceFolders event st = fold stopRemovedFolder (removed event) st"

definition singleRootOptions :: languageClientOptions where
  "singleRootOptions =
     \<lparr>documentSelector =
        [\<lparr>filter_scheme = ''file'', filter_language = ''python'', filter_pattern = None\<rparr>],
      configurationSection = ''python'',
      workspaceFolder = None\<rparr>"

text \<open>\<^verbatim>\<open>Workspace.workspaceFolders && Workspace.workspaceFolders.length > 1\<close>\<close>

definition multiRoot :: "workspace \<Rightarrow> bool" where
  "multiRoot ws = (case workspaceFolders ws of None \<Rightarrow> False | Some fs \<Rightarrow> length fs > 1)"

text \<open>\<^verbatim>\<open>Workspace.rootPath || '/'\<close>: an undefined or empty root path gives \<^verbatim>\<open>'/'\<close>.\<close>

definition rootKey :: "workspace \<Rightarrow> string" where
  "rootKey ws = (case rootPath ws of None \<Rightarrow> ''/'' | Some p \<Rightarrow> if p = [] then ''/'' else p)"

definition activate :: "workspace \<Rightarrow> extension \<Rightarrow> extension" where
  "activate ws st =
     (if multiRoot ws then
        let st1 = st\<lparr>openListener := True\<rparr>;
            st2 = fold (runLanguageClientOnDemand ws) (textDocuments ws) st1
        in st2\<lparr>foldersListener := True\<rparr>
      else
        let (languageClient, st1) = runLanguageClient singleRootOptions st
        in st1\<lparr>clients := Map_set (clients st1) (rootKey ws) languageClient,
               trace := trace st1 @ [ClientsSet (rootKey ws) languageClient]\<rparr>)"

subsection \<open>\<^verbatim>\<open>deactivate\<close>\<close>

text \<open>
  How a promise ends. \<^verbatim>\<open>Promise.all\<close> rejects as soon as one of its promises rejects,
  resolves when all have resolved, and stays pending otherwise.
\<close>

datatype promise = Resolved | Rejected | Pending

definition Promise_all :: "promise list \<Rightarrow> promise" where
  "Promise_all ps =
     (if Rejected \<in> set ps then Rejected else if Pending \<in> set ps then Pending else Resolved)"

text \<open>
  \<open>stopResult\<close> is how the promise of each client's \<^verbatim>\<open>stop()\<close> ends; the library
  decides it. The result is the state after the loop and how the returned promise ends.
\<close>

definition deactivate :: "(languageClient \<Rightarrow> promise) \<Rightarrow> extension \<Rightarrow> extension \<times> promise" where
  "deactivate stopResult st =
     (let (st1, promises) =
        fold (\<lambda>client (s, ps). (s\<lparr>trace := trace s @ [ClientStop client]\<rparr>, ps @ [stopResult client]))
          (Map_values (clients st)) (st, [])
      in (st1, Promise_all promises))"

subsection \<open>Notifications of the editor\<close>

text \<open>
  A notification reaches a listener only if \<^verbatim>\<open>activate\<close> registered it. Each one comes
  with the editor's workspace as it is at that moment. The code attaches nothing to the
  promise of \<^verbatim>\<open>stop()\<close> in the folders listener, so its settling changes nothing but
  the trace.
\<close>

datatype event =
    DidOpenTextDocument textDocument
  | DidChangeWorkspaceFolders workspaceFoldersChangeEvent
  | DidSettleStop languageClient

fun handle :: "workspace \<times> event \<Rightarrow> extension \<Rightarrow> extension" where
  "handle (ws, DidOpenTextDocument document) st =
     (if openListener st then runLanguageClientOnDemand ws document st else st)"
| "handle (ws, DidChangeWorkspaceFolders event) st =
     (if foldersListener st then onDidChangeWorkspaceFolders event st else st)"
| "handle (ws, DidSettleStop client) st = st\<lparr>trace := trace st @ [StopSettled client]\<rparr>"

definition run :: "(workspace \<times> event) list \<Rightarrow> extension \<Rightarrow> extension" where
  "run evs st = fold handle evs st"

subsection \<open>The invariant of the registry\<close>

definition keys_unique :: "extension \<Rightarrow> bool" where
  "keys_unique st = distinct (map fst (clients st))"

subsection \<open>Reading a trace\<close>

text \<open>The registry that the \<open>ClientsSet\<close> and \<open>ClientsDelete\<close> entries of a trace build.\<close>

fun replay :: "action list \<Rightarrow> (string, languageClient) js_map \<Rightarrow> (string, languageClient) js_map" where
  "replay [] reg = reg"
| "replay (ClientsSet k c # tr) reg = replay tr (Map_set reg k c)"
| "replay (ClientsDelete k # tr) reg = replay tr (Map_delete reg k)"
| "replay (a # tr) reg = replay tr reg"

text \<open>The \<open>DidSettleStop\<close> notifications of a run, as trace entries.\<close>

fun settlements :: "(workspace \<times> event) list \<Rightarrow> action list" where
  "settlements [] = []"
| "settlements ((ws, DidSettleStop client) # evs) = StopSettled client # settlements evs"
| "settlements (e # evs) = settlements evs"

text \<open>
  The order the specification asks for: an entry is deleted only when the client it
  holds has already been asked to stop. \<open>reg\<close> is the registry so far, \<open>asked\<close> the
  clients whose \<^verbatim>\<open>stop()\<close> has been called so far.
\<close>

fun stop_precedes_delete ::
  "(string, languageClient) js_map \<Rightarrow> languageClient list \<Rightarrow> action list \<Rightarrow> bool" where
  "stop_precedes_delete reg asked [] = True"
| "stop_precedes_delete reg asked (ClientsSet k c # tr) =
     stop_precedes_delete (Map_set reg k c) asked tr"
| "stop_precedes_delete reg asked (ClientStop c # tr) =
     stop_precedes_delete reg (c # asked) tr"
| "stop_precedes_delete reg asked (ClientsDelete k # tr) =
     ((case Map_get reg k of None \<Rightarrow> True | Some c \<Rightarrow> c \<in> set asked)
      \<and> stop_precedes_delete (Map_delete reg k) asked tr)"
| "stop_precedes_delete reg asked (a # tr) = stop_precedes_delete reg asked tr"

text \<open>
  The order of the code: a deletion of a key is followed at once by the call of
  \<^verbatim>\<open>stop()\<close> on the client that the key held.
\<close>

fun delete_then_stop :: "(string, languageClient) js_map \<Rightarrow> action list \<Rightarrow> bool" where
  "delete_then_stop reg [] = True"
| "delete_then_stop reg (ClientsDelete k # ClientStop c # tr) =
     (Map_get reg k = Some c \<and> delete_then_stop (Map_delete reg k) tr)"
| "delete_then_stop reg (ClientsDelete k # tr) = False"
| "delete_then_stop reg (ClientsSet k c # tr) = delete_then_stop (Map_set reg k c) tr"
| "delete_then_stop reg (a # tr) = delete_then_stop reg tr"

text \<open>A state whose trace agrees with its registry and has the order of the code.\<close>

definition trace_ok :: "extension \<Rightarrow> bool" where
  "trace_ok st = (replay (trace st) [] = clients st \<and> delete_then_stop [] (trace st))"

text \<open>
  Serialisation per root, as the specification asks for it: a client is started only
  when no client of the same workspace folder has a stop that is still unsettled.
  \<open>roots\<close> gives each created client the key of its folder, \<open>stopping\<close> the clients
  asked to stop whose stop has not settled.
\<close>

fun start_awaits_stop ::
  "(languageClient \<times> string option) list \<Rightarrow> languageClient list \<Rightarrow> action list \<Rightarrow> bool" where
  "start_awaits_stop roots stopping [] = True"
| "start_awaits_stop roots stopping (ClientNew c opts # tr) =
     start_awaits_stop
       ((c, map_option (\<lambda>f. toString (folder_uri f)) (workspaceFolder opts)) # roots) stopping tr"
| "start_awaits_stop roots stopping (ClientStart c # tr) =
     (list_all (\<lambda>p. map_of roots p \<noteq> map_of roots c) stopping
      \<and> start_awaits_stop roots stopping tr)"
| "start_awaits_stop roots stopping (ClientStop c # tr) =
     start_awaits_stop roots (c # stopping) tr"
| "start_awaits_stop roots stopping (StopSettled c # tr) =
     start_awaits_stop roots (removeAll c stopping) tr"
| "start_awaits_stop roots stopping (a # tr) = start_awaits_stop roots stopping tr"

subsection \<open>A workspace to run the code on\<close>

definition folderA :: workspaceFolder where
  "folderA = \<lparr>folder_uri = \<lparr>scheme = ''file'', fsPath = ''/a'', toString = ''file:///a''\<rparr>,
     folder_name = ''a''\<rparr>"

definition folderB :: workspaceFolder where
  "folderB = \<lparr>folder_uri = \<lparr>scheme = ''file'', fsPath = ''/b'', toString = ''file:///b''\<rparr>,
     folder_name = ''b''\<rparr>"

definition docA :: textDocument where
  "docA = \<lparr>languageId = ''python'',
     doc_uri = \<lparr>scheme = ''file'', fsPath = ''/a/m.py'', toString = ''file:///a/m.py''\<rparr>\<rparr>"

definition docA2 :: textDocument where
  "docA2 = \<lparr>languageId = ''python'',
     doc_uri = \<lparr>scheme = ''file'', fsPath = ''/a/n.py'', toString = ''file:///a/n.py''\<rparr>\<rparr>"

definition docB :: textDocument where
  "docB = \<lparr>languageId = ''python'',
     doc_uri = \<lparr>scheme = ''file'', fsPath = ''/b/k.py'', toString = ''file:///b/k.py''\<rparr>\<rparr>"

definition docOutside :: textDocument where
  "docOutside = \<lparr>languageId = ''python'',
     doc_uri = \<lparr>scheme = ''file'', fsPath = ''/tmp/x.py'', toString = ''file:///tmp/x.py''\<rparr>\<rparr>"

definition docText :: textDocument where
  "docText = \<lparr>languageId = ''plaintext'',
     doc_uri = \<lparr>scheme = ''file'', fsPath = ''/a/readme.txt'', toString = ''file:///a/readme.txt''\<rparr>\<rparr>"

text \<open>Two folders, one document already open under the first.\<close>

definition wsMulti :: workspace where
  "wsMulti = \<lparr>workspaceFolders = Some [folderA, folderB], textDocuments = [docA],
     rootPath = Some ''/a'',
     getWorkspaceFolder = (\<lambda>u. if take 3 (fsPath u) = ''/a/'' then Some folderA
                               else if take 3 (fsPath u) = ''/b/'' then Some folderB else None)\<rparr>"

text \<open>No folder at all.\<close>

definition wsNone :: workspace where
  "wsNone = \<lparr>workspaceFolders = None, textDocuments = [docOutside], rootPath = None,
     getWorkspaceFolder = (\<lambda>u. None)\<rparr>"

text \<open>One folder, its path as the root path, one document of it open.\<close>

definition wsOne :: workspace where
  "wsOne = \<lparr>workspaceFolders = Some [folderA], textDocuments = [docA], rootPath = Some ''/a'',
     getWorkspaceFolder = (\<lambda>u. if take 3 (fsPath u) = ''/a/'' then Some folderA else None)\<rparr>"

definition removeA :: event where
  "removeA = DidChangeWorkspaceFolders \<lparr>added = [], removed = [folderA]\<rparr>"

definition addB :: event where
  "addB = DidChangeWorkspaceFolders \<lparr>added = [folderB], removed = []\<rparr>"

section \<open>Properties\<close>

subsection \<open>The map operations\<close>

lemma Map_has_get: "Map_has m k \<longleftrightarrow> Map_get m k \<noteq> None"
  by (simp add: Map_has_def Map_get_def map_of_eq_None_iff)

lemma keys_Map_set: "set (map fst (Map_set m k v)) = insert k (set (map fst m))"
proof (induction m)
  case Nil
  show ?case by simp
next
  case (Cons e m)
  obtain k' v' where e: "e = (k', v')" by (cases e)
  show ?case
  proof (cases "k' = k")
    case True
    then show ?thesis using e by simp
  next
    case False
    then show ?thesis using e Cons.IH by (simp add: insert_commute)
  qed
qed

lemma distinct_Map_set: "distinct (map fst m) \<Longrightarrow> distinct (map fst (Map_set m k v))"
proof (induction m)
  case Nil
  show ?case by simp
next
  case (Cons e m)
  obtain k' v' where e: "e = (k', v')" by (cases e)
  from Cons have "distinct (map fst (Map_set m k v))" by simp
  moreover have "k' \<notin> set (map fst m)" using Cons.prems e by simp
  ultimately show ?case using Cons.prems e keys_Map_set [of m k v] by auto
qed

lemma distinct_Map_delete: "distinct (map fst m) \<Longrightarrow> distinct (map fst (Map_delete m k))"
  by (simp add: Map_delete_def distinct_map_filter)

lemma get_Map_set: "Map_get (Map_set m k v) k' = (if k' = k then Some v else Map_get m k')"
  by (induction m) (auto simp: Map_get_def)

lemma get_Map_delete: "Map_get (Map_delete m k) k' = (if k' = k then None else Map_get m k')"
  by (induction m) (auto simp: Map_get_def Map_delete_def)

lemma Map_set_absent: "\<not> Map_has m k \<Longrightarrow> Map_set m k v = m @ [(k, v)]"
  by (induction m) (auto simp: Map_has_def)

lemma Map_delete_absent: "\<not> Map_has m k \<Longrightarrow> Map_delete m k = m"
  by (induction m) (auto simp: Map_has_def Map_delete_def)

lemma Map_has_Map_set: "Map_has (Map_set m k v) k' \<longleftrightarrow> k' = k \<or> Map_has m k'"
  unfolding Map_has_def keys_Map_set by simp

lemma Map_delete_Map_set: "Map_delete (Map_set m k v) k = Map_delete m k"
  by (induction m) (auto simp: Map_delete_def)

lemma Map_delete_idem: "Map_delete (Map_delete m k) k = Map_delete m k"
  by (simp add: Map_delete_def)

lemma keys_Map_delete: "set (map fst (Map_delete m k)) = set (map fst m) - {k}"
  by (auto simp: Map_delete_def)

lemma Map_has_Map_delete: "Map_has (Map_delete m k) k' \<longleftrightarrow> k' \<noteq> k \<and> Map_has m k'"
  unfolding Map_has_def keys_Map_delete by auto

subsection \<open>What one call does\<close>

lemma onDemand_not_qualifying:
  "\<not> (languageId d = ''python'' \<and> scheme (doc_uri d) = ''file'')
   \<Longrightarrow> runLanguageClientOnDemand ws d st = st"
  by (simp add: runLanguageClientOnDemand_def)

lemma onDemand_no_folder:
  "getWorkspaceFolder ws (doc_uri d) = None \<Longrightarrow> runLanguageClientOnDemand ws d st = st"
  by (simp add: runLanguageClientOnDemand_def)

lemma onDemand_present:
  "getWorkspaceFolder ws (doc_uri d) = Some f \<Longrightarrow> Map_has (clients st) (toString (folder_uri f))
   \<Longrightarrow> runLanguageClientOnDemand ws d st = st"
  by (simp add: runLanguageClientOnDemand_def)

lemma onDemand_new:
  "languageId d = ''python'' \<Longrightarrow> scheme (doc_uri d) = ''file''
   \<Longrightarrow> getWorkspaceFolder ws (doc_uri d) = Some f
   \<Longrightarrow> \<not> Map_has (clients st) (toString (folder_uri f))
   \<Longrightarrow> runLanguageClientOnDemand ws d st =
       st\<lparr>clients := Map_set (clients st) (toString (folder_uri f)) (created st),
          created := Suc (created st),
          subscriptions := subscriptions st @
            [StartDisposable (created st), ProgressReporting (created st)],
          trace := trace st @
            [ClientNew (created st) (onDemandOptions f), ClientStart (created st),
             ClientsSet (toString (folder_uri f)) (created st)]\<rparr>"
  by (simp add: runLanguageClientOnDemand_def runLanguageClient_def Let_def)

text \<open>Every call of \<open>runLanguageClientOnDemand\<close> is one of the two: nothing, or a new client.\<close>

lemma onDemand_cases:
  obtains (same) "runLanguageClientOnDemand ws d st = st"
  | (new) f where "languageId d = ''python''" "scheme (doc_uri d) = ''file''"
      "getWorkspaceFolder ws (doc_uri d) = Some f"
      "\<not> Map_has (clients st) (toString (folder_uri f))"
proof (cases "languageId d = ''python'' \<and> scheme (doc_uri d) = ''file''")
  case False
  then show ?thesis using same onDemand_not_qualifying by blast
next
  case q: True
  show ?thesis
  proof (cases "getWorkspaceFolder ws (doc_uri d)")
    case None
    then show ?thesis using same onDemand_no_folder by blast
  next
    case (Some f)
    show ?thesis
    proof (cases "Map_has (clients st) (toString (folder_uri f))")
      case True
      then show ?thesis using same Some onDemand_present by blast
    next
      case False
      then show ?thesis using new q Some by blast
    qed
  qed
qed

lemma stopRemoved_absent:
  "Map_get (clients st) (toString (folder_uri f)) = None \<Longrightarrow> stopRemovedFolder f st = st"
  by (simp add: stopRemovedFolder_def)

lemma stopRemoved_present:
  "Map_get (clients st) (toString (folder_uri f)) = Some c \<Longrightarrow>
   stopRemovedFolder f st =
     st\<lparr>clients := Map_delete (clients st) (toString (folder_uri f)),
        trace := trace st @ [ClientsDelete (toString (folder_uri f)), ClientStop c]\<rparr>"
  by (simp add: stopRemovedFolder_def)

lemma onDemand_listeners:
  "openListener (runLanguageClientOnDemand ws d st) = openListener st"
  "foldersListener (runLanguageClientOnDemand ws d st) = foldersListener st"
  by (cases rule: onDemand_cases [of ws d st]; simp add: onDemand_new)+

lemma stopRemoved_listeners:
  "openListener (stopRemovedFolder f st) = openListener st"
  "foldersListener (stopRemovedFolder f st) = foldersListener st"
  by (cases "Map_get (clients st) (toString (folder_uri f))";
      simp add: stopRemoved_absent stopRemoved_present)+

subsection \<open>The example workspace, evaluated\<close>

lemma activate_wsMulti:
  "activate wsMulti initial =
     \<lparr>clients = [(''file:///a'', 0)], created = 1,
      subscriptions = [StartDisposable 0, ProgressReporting 0],
      openListener = True, foldersListener = True,
      trace = [ClientNew 0 (onDemandOptions folderA), ClientStart 0, ClientsSet ''file:///a'' 0]\<rparr>"
  by (simp add: activate_def multiRoot_def wsMulti_def docA_def folderA_def folderB_def
      runLanguageClientOnDemand_def runLanguageClient_def initial_def Map_has_def Let_def)

subsection \<open>Unique keys\<close>

lemma onDemand_keys_unique:
  "keys_unique st \<Longrightarrow> keys_unique (runLanguageClientOnDemand ws d st)"
  by (cases rule: onDemand_cases [of ws d st])
     (simp_all add: onDemand_new keys_unique_def distinct_Map_set)

lemma stopRemoved_keys_unique: "keys_unique st \<Longrightarrow> keys_unique (stopRemovedFolder f st)"
  by (cases "Map_get (clients st) (toString (folder_uri f))")
     (simp_all add: stopRemoved_absent stopRemoved_present keys_unique_def distinct_Map_delete)

lemma fold_preserves:
  "(\<And>x s. P s \<Longrightarrow> P (f x s)) \<Longrightarrow> P s \<Longrightarrow> P (fold f xs s)"
  by (induction xs arbitrary: s) simp_all

lemma handle_keys_unique: "keys_unique st \<Longrightarrow> keys_unique (handle e st)"
proof (cases e)
  case (Pair ws ev)
  assume u: "keys_unique st"
  show ?thesis
  proof (cases ev)
    case (DidOpenTextDocument d)
    then show ?thesis using Pair u by (simp add: onDemand_keys_unique)
  next
    case (DidChangeWorkspaceFolders c)
    then show ?thesis using Pair u
      by (simp add: onDidChangeWorkspaceFolders_def fold_preserves [where P = keys_unique]
          stopRemoved_keys_unique)
  next
    case (DidSettleStop c)
    then show ?thesis using Pair u by (simp add: keys_unique_def)
  qed
qed

lemma activate_keys_unique: "keys_unique st \<Longrightarrow> keys_unique (activate ws st)"
proof (cases "multiRoot ws")
  case True
  assume "keys_unique st"
  then have "keys_unique (st\<lparr>openListener := True\<rparr>)" by (simp add: keys_unique_def)
  then have "keys_unique (fold (runLanguageClientOnDemand ws) (textDocuments ws) (st\<lparr>openListener := True\<rparr>))"
    by (rule fold_preserves [where P = keys_unique, rotated]) (rule onDemand_keys_unique)
  then show ?thesis using True by (simp add: activate_def Let_def keys_unique_def)
next
  case False
  assume "keys_unique st"
  then show ?thesis using False
    by (simp add: activate_def runLanguageClient_def Let_def keys_unique_def distinct_Map_set)
qed

text \<open>
  C1. Whatever the workspace at activation and whatever notifications follow (documents
  opened, folders removed, after the scan of the open documents at startup), the
  registry never holds two entries with the same workspace-folder URI string.
\<close>

theorem registry_keys_unique:
  "distinct (map fst (clients (run evs (activate ws initial))))"
proof -
  have "keys_unique initial" by (simp add: keys_unique_def initial_def)
  then have "keys_unique (activate ws initial)" by (rule activate_keys_unique)
  then have "keys_unique (run evs (activate ws initial))"
    unfolding run_def by (rule fold_preserves [where P = keys_unique, rotated]) (rule handle_keys_unique)
  then show ?thesis by (simp add: keys_unique_def)
qed

subsection \<open>Opening documents\<close>

text \<open>
  C2. A document-opened notification for a folder whose key is already in the registry
  leaves the whole state as it is: the entry is the same and no client is created. In
  particular, after one qualifying document of a folder has been handled, a second
  document of the same folder finds the entry and changes nothing.
\<close>

theorem second_open_changes_nothing:
  "(getWorkspaceFolder ws (doc_uri d) = Some f \<and> Map_has (clients st) (toString (folder_uri f))
      \<longrightarrow> handle (ws, DidOpenTextDocument d) st = st)
   \<and> (languageId d1 = ''python'' \<and> scheme (doc_uri d1) = ''file''
        \<and> getWorkspaceFolder ws1 (doc_uri d1) = Some f1
        \<and> getWorkspaceFolder ws2 (doc_uri d2) = Some f2
        \<and> toString (folder_uri f2) = toString (folder_uri f1)
      \<longrightarrow> Map_get (clients (runLanguageClientOnDemand ws1 d1 st')) (toString (folder_uri f1)) \<noteq> None
          \<and> runLanguageClientOnDemand ws2 d2 (runLanguageClientOnDemand ws1 d1 st')
              = runLanguageClientOnDemand ws1 d1 st')"
proof (intro conjI impI)
  assume "getWorkspaceFolder ws (doc_uri d) = Some f \<and> Map_has (clients st) (toString (folder_uri f))"
  then show "handle (ws, DidOpenTextDocument d) st = st"
    by (simp add: onDemand_present)
next
  assume a: "languageId d1 = ''python'' \<and> scheme (doc_uri d1) = ''file''
        \<and> getWorkspaceFolder ws1 (doc_uri d1) = Some f1
        \<and> getWorkspaceFolder ws2 (doc_uri d2) = Some f2
        \<and> toString (folder_uri f2) = toString (folder_uri f1)"
  let ?k = "toString (folder_uri f1)"
  let ?st1 = "runLanguageClientOnDemand ws1 d1 st'"
  have has: "Map_has (clients ?st1) ?k"
  proof (cases "Map_has (clients st') ?k")
    case True
    then show ?thesis using a by (simp add: onDemand_present)
  next
    case False
    then have "clients ?st1 = Map_set (clients st') ?k (created st')"
      using a by (simp add: onDemand_new)
    then show ?thesis by (simp add: Map_has_Map_set)
  qed
  then show "Map_get (clients ?st1) ?k \<noteq> None" by (simp add: Map_has_get)
  from has a show "runLanguageClientOnDemand ws2 d2 ?st1 = ?st1"
    by (simp add: onDemand_present)
qed

theorem second_open_changes_nothing_witness:
  "getWorkspaceFolder wsMulti (doc_uri docA2) = Some folderA
   \<and> Map_has (clients (activate wsMulti initial)) (toString (folder_uri folderA))
   \<and> handle (wsMulti, DidOpenTextDocument docA2) (activate wsMulti initial) = activate wsMulti initial
   \<and> created (handle (wsMulti, DidOpenTextDocument docA2) (activate wsMulti initial)) = 1
   \<and> languageId docA = ''python'' \<and> scheme (doc_uri docA) = ''file''
   \<and> getWorkspaceFolder wsMulti (doc_uri docA) = Some folderA
   \<and> clients (runLanguageClientOnDemand wsMulti docA initial) = [(''file:///a'', 0)]
   \<and> runLanguageClientOnDemand wsMulti docA2 (runLanguageClientOnDemand wsMulti docA initial)
       = runLanguageClientOnDemand wsMulti docA initial"
proof -
  have g: "getWorkspaceFolder wsMulti (doc_uri docA2) = Some folderA"
    by (simp add: wsMulti_def docA2_def)
  have st: "clients (activate wsMulti initial) = [(''file:///a'', 0)]"
    "created (activate wsMulti initial) = 1"
    by (simp_all add: activate_def multiRoot_def wsMulti_def docA_def folderA_def folderB_def
        runLanguageClientOnDemand_def runLanguageClient_def initial_def Map_has_def Let_def)
  have h: "Map_has (clients (activate wsMulti initial)) (toString (folder_uri folderA))"
    by (simp add: st Map_has_def folderA_def)
  have q: "languageId docA = ''python''" "scheme (doc_uri docA) = ''file''"
    "getWorkspaceFolder wsMulti (doc_uri docA) = Some folderA"
    by (simp_all add: wsMulti_def docA_def)
  have n: "\<not> Map_has (clients initial) (toString (folder_uri folderA))"
    by (simp add: initial_def Map_has_def)
  have c: "clients (runLanguageClientOnDemand wsMulti docA initial) = [(''file:///a'', 0)]"
    by (simp add: onDemand_new [OF q n]) (simp add: initial_def folderA_def)
  show ?thesis
    using g h st q c
      second_open_changes_nothing [of wsMulti docA2 folderA "activate wsMulti initial"
        docA wsMulti folderA wsMulti docA2 folderA initial]
    by simp
qed

text \<open>
  C5. A python document with a file URI that lies in no workspace folder creates no
  client and leaves the state unchanged.
\<close>

theorem ownerless_document_ignored:
  assumes "languageId d = ''python''" and "scheme (doc_uri d) = ''file''"
    and "getWorkspaceFolder ws (doc_uri d) = None"
  shows "handle (ws, DidOpenTextDocument d) st = st"
  using assms(3) by (simp add: onDemand_no_folder)

theorem ownerless_document_ignored_witness:
  "languageId docOutside = ''python'' \<and> scheme (doc_uri docOutside) = ''file''
   \<and> getWorkspaceFolder wsMulti (doc_uri docOutside) = None
   \<and> openListener (activate wsMulti initial)
   \<and> handle (wsMulti, DidOpenTextDocument docOutside) (activate wsMulti initial)
       = activate wsMulti initial"
proof -
  have a: "languageId docOutside = ''python''" "scheme (doc_uri docOutside) = ''file''"
    "getWorkspaceFolder wsMulti (doc_uri docOutside) = None"
    by (simp_all add: docOutside_def wsMulti_def)
  have l: "openListener (activate wsMulti initial)"
    by (simp add: activate_def multiRoot_def wsMulti_def Let_def onDemand_listeners)
  show ?thesis using a l ownerless_document_ignored [OF a, of "activate wsMulti initial"] by simp
qed

subsection \<open>Removing folders\<close>

lemma fold_stopRemoved_absent:
  "\<forall>f \<in> set fs. \<not> Map_has (clients st) (toString (folder_uri f))
   \<Longrightarrow> fold stopRemovedFolder fs st = st"
  by (induction fs) (simp_all add: Map_has_get stopRemoved_absent)

text \<open>
  C8. Removing a folder whose key is not in the registry is a no-op: the registry and
  the trace are unchanged, so no client is asked to stop. The same holds for a whole
  notification all of whose removed folders are absent.
\<close>

theorem remove_absent_root_noop:
  "(\<not> Map_has (clients st) (toString (folder_uri f)) \<longrightarrow> stopRemovedFolder f st = st)
   \<and> ((\<forall>f \<in> set (removed ev). \<not> Map_has (clients st) (toString (folder_uri f)))
        \<longrightarrow> handle (ws, DidChangeWorkspaceFolders ev) st = st)"
proof (intro conjI impI)
  assume "\<not> Map_has (clients st) (toString (folder_uri f))"
  then show "stopRemovedFolder f st = st" by (simp add: Map_has_get stopRemoved_absent)
next
  assume "\<forall>f \<in> set (removed ev). \<not> Map_has (clients st) (toString (folder_uri f))"
  then have "fold stopRemovedFolder (removed ev) st = st"
    by (rule fold_stopRemoved_absent)
  then show "handle (ws, DidChangeWorkspaceFolders ev) st = st"
    by (simp add: onDidChangeWorkspaceFolders_def)
qed

theorem remove_absent_root_noop_witness:
  "\<not> Map_has (clients (activate wsMulti initial)) (toString (folder_uri folderB))
   \<and> foldersListener (activate wsMulti initial)
   \<and> stopRemovedFolder folderB (activate wsMulti initial) = activate wsMulti initial
   \<and> handle (wsMulti, DidChangeWorkspaceFolders \<lparr>added = [], removed = [folderB]\<rparr>)
        (activate wsMulti initial) = activate wsMulti initial"
proof -
  have h: "\<not> Map_has (clients (activate wsMulti initial)) (toString (folder_uri folderB))"
    by (simp add: activate_wsMulti Map_has_def folderB_def)
  have l: "foldersListener (activate wsMulti initial)" by (simp add: activate_wsMulti)
  show ?thesis
    using h l remove_absent_root_noop [of "activate wsMulti initial" folderB
        "\<lparr>added = [], removed = [folderB]\<rparr>" wsMulti]
    by simp
qed

subsection \<open>Frame\<close>

lemma onDemand_frame:
  "getWorkspaceFolder ws (doc_uri d) = Some f \<Longrightarrow>
   Map_delete (clients (runLanguageClientOnDemand ws d st)) (toString (folder_uri f))
     = Map_delete (clients st) (toString (folder_uri f))"
  by (cases rule: onDemand_cases [of ws d st]) (simp_all add: onDemand_new Map_delete_Map_set)

lemma stopRemoved_frame:
  "Map_delete (clients (stopRemovedFolder f st)) (toString (folder_uri f))
     = Map_delete (clients st) (toString (folder_uri f))"
  by (cases "Map_get (clients st) (toString (folder_uri f))")
     (simp_all add: stopRemoved_absent stopRemoved_present Map_delete_idem)

lemma Map_delete_eq_get:
  assumes "Map_delete m k = Map_delete m' k" and "k' \<noteq> k"
  shows "Map_get m k' = Map_get m' k'"
proof -
  have "Map_get (Map_delete m k) k' = Map_get (Map_delete m' k) k'" using assms(1) by simp
  then show ?thesis using assms(2) by (simp add: get_Map_delete)
qed

text \<open>
  C9. One consumed notification touches at most the entry of its own workspace-folder
  URI. For a document-opened notification and for one removed folder of a
  folders-changed notification: the registry without the notification's key is the same
  before and after (same entries, same order), so every other key reads the same
  client; a document that lies in no folder leaves the registry as it is.
\<close>

theorem event_touches_one_entry:
  "(getWorkspaceFolder ws' (doc_uri d') = None
      \<longrightarrow> clients (handle (ws', DidOpenTextDocument d') st) = clients st)
   \<and> (getWorkspaceFolder ws (doc_uri d) = Some f \<longrightarrow>
        Map_delete (clients (handle (ws, DidOpenTextDocument d) st)) (toString (folder_uri f))
          = Map_delete (clients st) (toString (folder_uri f))
        \<and> (k \<noteq> toString (folder_uri f) \<longrightarrow>
             Map_get (clients (handle (ws, DidOpenTextDocument d) st)) k = Map_get (clients st) k))
   \<and> Map_delete (clients (stopRemovedFolder g st)) (toString (folder_uri g))
        = Map_delete (clients st) (toString (folder_uri g))
   \<and> (k \<noteq> toString (folder_uri g) \<longrightarrow>
        Map_get (clients (stopRemovedFolder g st)) k = Map_get (clients st) k)"
proof (intro conjI impI)
  assume "getWorkspaceFolder ws' (doc_uri d') = None"
  then show "clients (handle (ws', DidOpenTextDocument d') st) = clients st"
    by (simp add: onDemand_no_folder)
next
  assume g: "getWorkspaceFolder ws (doc_uri d) = Some f"
  then show *: "Map_delete (clients (handle (ws, DidOpenTextDocument d) st)) (toString (folder_uri f))
          = Map_delete (clients st) (toString (folder_uri f))"
    by (simp add: onDemand_frame)
  assume "k \<noteq> toString (folder_uri f)"
  with * show "Map_get (clients (handle (ws, DidOpenTextDocument d) st)) k = Map_get (clients st) k"
    by (rule Map_delete_eq_get)
next
  show "Map_delete (clients (stopRemovedFolder g st)) (toString (folder_uri g))
        = Map_delete (clients st) (toString (folder_uri g))"
    by (rule stopRemoved_frame)
next
  assume "k \<noteq> toString (folder_uri g)"
  with stopRemoved_frame show "Map_get (clients (stopRemovedFolder g st)) k = Map_get (clients st) k"
    by (rule Map_delete_eq_get)
qed

lemma open_docB:
  "handle (wsMulti, DidOpenTextDocument docB) (activate wsMulti initial) =
     \<lparr>clients = [(''file:///a'', 0), (''file:///b'', 1)], created = 2,
      subscriptions = [StartDisposable 0, ProgressReporting 0, StartDisposable 1, ProgressReporting 1],
      openListener = True, foldersListener = True,
      trace = [ClientNew 0 (onDemandOptions folderA), ClientStart 0, ClientsSet ''file:///a'' 0,
               ClientNew 1 (onDemandOptions folderB), ClientStart 1, ClientsSet ''file:///b'' 1]\<rparr>"
proof -
  have q: "languageId docB = ''python''" "scheme (doc_uri docB) = ''file''"
    by (simp_all add: docB_def)
  have g: "getWorkspaceFolder wsMulti (doc_uri docB) = Some folderB"
    by (simp add: wsMulti_def docB_def)
  have n: "\<not> Map_has (clients (activate wsMulti initial)) (toString (folder_uri folderB))"
    by (simp add: activate_wsMulti Map_has_def folderB_def)
  show ?thesis
    by (simp add: onDemand_new [OF q g n]) (simp add: activate_wsMulti folderB_def)
qed

theorem event_touches_one_entry_witness:
  "getWorkspaceFolder wsMulti (doc_uri docOutside) = None
   \<and> clients (handle (wsMulti, DidOpenTextDocument docOutside) (activate wsMulti initial))
       = clients (activate wsMulti initial)
   \<and> getWorkspaceFolder wsMulti (doc_uri docB) = Some folderB
   \<and> ''file:///a'' \<noteq> toString (folder_uri folderB)
   \<and> Map_get (clients (activate wsMulti initial)) ''file:///a'' = Some 0
   \<and> Map_get (clients (handle (wsMulti, DidOpenTextDocument docB) (activate wsMulti initial)))
        ''file:///a'' = Some 0
   \<and> Map_get (clients (stopRemovedFolder folderB (activate wsMulti initial))) ''file:///a'' = Some 0"
proof -
  have o: "getWorkspaceFolder wsMulti (doc_uri docOutside) = None"
    by (simp add: wsMulti_def docOutside_def)
  have g: "getWorkspaceFolder wsMulti (doc_uri docB) = Some folderB"
    by (simp add: wsMulti_def docB_def)
  have k: "''file:///a'' \<noteq> toString (folder_uri folderB)" by (simp add: folderB_def)
  have a: "Map_get (clients (activate wsMulti initial)) ''file:///a'' = Some 0"
    by (simp add: activate_wsMulti Map_get_def)
  show ?thesis
    using o g k a event_touches_one_entry [of wsMulti docOutside "activate wsMulti initial"
        wsMulti docB folderB "''file:///a''" folderB]
    by simp
qed

subsection \<open>What can add an entry\<close>

lemma stopRemoved_has:
  "Map_has (clients (stopRemovedFolder f st)) k \<Longrightarrow> Map_has (clients st) k"
  by (cases "Map_get (clients st) (toString (folder_uri f))")
     (simp_all add: stopRemoved_absent stopRemoved_present Map_has_Map_delete)

lemma fold_stopRemoved_has:
  "Map_has (clients (fold stopRemovedFolder fs st)) k \<Longrightarrow> Map_has (clients st) k"
  by (induction fs arbitrary: st) (auto dest: stopRemoved_has)

text \<open>
  C10. If a notification makes a key appear in the registry, it is a document-opened
  notification for a document with languageId python and URI scheme file. A
  folders-changed notification that only adds folders changes nothing, and a
  document-opened notification for any other document changes nothing.
\<close>

theorem only_qualifying_open_adds:
  "(Map_has (clients (handle (ws, e) st)) k \<and> \<not> Map_has (clients st) k
      \<longrightarrow> (\<exists>d. e = DidOpenTextDocument d \<and> languageId d = ''python''
                \<and> scheme (doc_uri d) = ''file''))
   \<and> (removed ev = [] \<longrightarrow> handle (ws, DidChangeWorkspaceFolders ev) st = st)
   \<and> (\<not> (languageId d = ''python'' \<and> scheme (doc_uri d) = ''file'')
        \<longrightarrow> handle (ws, DidOpenTextDocument d) st = st)"
proof (intro conjI impI)
  assume a: "Map_has (clients (handle (ws, e) st)) k \<and> \<not> Map_has (clients st) k"
  show "\<exists>d. e = DidOpenTextDocument d \<and> languageId d = ''python'' \<and> scheme (doc_uri d) = ''file''"
  proof (cases e)
    case (DidOpenTextDocument d)
    have "languageId d = ''python'' \<and> scheme (doc_uri d) = ''file''"
    proof (rule ccontr)
      assume "\<not> ?thesis"
      then have "handle (ws, e) st = st"
        using DidOpenTextDocument by (simp add: onDemand_not_qualifying)
      with a show False by simp
    qed
    then show ?thesis using DidOpenTextDocument by simp
  next
    case (DidChangeWorkspaceFolders c)
    then have "Map_has (clients st) k"
      using a by (cases "foldersListener st")
        (auto simp: onDidChangeWorkspaceFolders_def dest: fold_stopRemoved_has)
    with a show ?thesis by simp
  next
    case (DidSettleStop c)
    with a show ?thesis by simp
  qed
next
  assume "removed ev = []"
  then show "handle (ws, DidChangeWorkspaceFolders ev) st = st"
    by (simp add: onDidChangeWorkspaceFolders_def)
next
  assume "\<not> (languageId d = ''python'' \<and> scheme (doc_uri d) = ''file'')"
  then show "handle (ws, DidOpenTextDocument d) st = st"
    by (simp add: onDemand_not_qualifying)
qed

theorem only_qualifying_open_adds_witness:
  "Map_has (clients (handle (wsMulti, DidOpenTextDocument docB) (activate wsMulti initial))) ''file:///b''
   \<and> \<not> Map_has (clients (activate wsMulti initial)) ''file:///b''
   \<and> languageId docB = ''python'' \<and> scheme (doc_uri docB) = ''file''
   \<and> removed \<lparr>added = [folderB], removed = []\<rparr> = []
   \<and> handle (wsMulti, addB) (activate wsMulti initial) = activate wsMulti initial
   \<and> \<not> (languageId docText = ''python'' \<and> scheme (doc_uri docText) = ''file'')
   \<and> handle (wsMulti, DidOpenTextDocument docText) (activate wsMulti initial)
       = activate wsMulti initial"
proof -
  have 1: "Map_has (clients (handle (wsMulti, DidOpenTextDocument docB) (activate wsMulti initial))) ''file:///b''"
    unfolding open_docB by (simp add: Map_has_def)
  have 2: "\<not> Map_has (clients (activate wsMulti initial)) ''file:///b''"
    unfolding activate_wsMulti by (simp add: Map_has_def)
  have 3: "\<not> (languageId docText = ''python'' \<and> scheme (doc_uri docText) = ''file'')"
    by (simp add: docText_def)
  show ?thesis
    using 1 2 3 only_qualifying_open_adds [of wsMulti "DidOpenTextDocument docB"
        "activate wsMulti initial" "''file:///b''" "\<lparr>added = [folderB], removed = []\<rparr>" docText]
    by (simp add: addB_def docB_def)
qed

subsection \<open>Single-root mode\<close>

lemma activate_single:
  "\<not> multiRoot ws \<Longrightarrow>
   activate ws initial =
     \<lparr>clients = [(rootKey ws, 0)], created = 1,
      subscriptions = [StartDisposable 0, ProgressReporting 0],
      openListener = False, foldersListener = False,
      trace = [ClientNew 0 singleRootOptions, ClientStart 0, ClientsSet (rootKey ws) 0]\<rparr>"
  by (simp add: activate_def runLanguageClient_def initial_def Let_def)

lemma run_no_listeners:
  "\<not> openListener st \<Longrightarrow> \<not> foldersListener st
   \<Longrightarrow> run evs st = st\<lparr>trace := trace st @ settlements evs\<rparr>"
proof (induction evs arbitrary: st)
  case Nil
  show ?case by (simp add: run_def)
next
  case (Cons e evs)
  obtain ws ev where e: "e = (ws, ev)" by (cases e)
  have step: "run (e # evs) st = run evs (handle e st)" by (simp add: run_def)
  show ?case
  proof (cases ev)
    case (DidOpenTextDocument d)
    then have "handle e st = st" using e Cons.prems by simp
    then show ?thesis using step Cons.IH [OF Cons.prems] e DidOpenTextDocument by simp
  next
    case (DidChangeWorkspaceFolders c)
    then have "handle e st = st" using e Cons.prems by simp
    then show ?thesis using step Cons.IH [OF Cons.prems] e DidChangeWorkspaceFolders by simp
  next
    case (DidSettleStop c)
    let ?st = "st\<lparr>trace := trace st @ [StopSettled c]\<rparr>"
    have h: "handle e st = ?st" using e DidSettleStop by simp
    have "run evs ?st = ?st\<lparr>trace := trace ?st @ settlements evs\<rparr>"
      by (rule Cons.IH) (simp_all add: Cons.prems)
    then show ?thesis using step h e DidSettleStop by simp
  qed
qed

text \<open>
  C7, as the specification states it, fails: there is no default key. The one session
  of single-root mode is registered under \<^verbatim>\<open>Workspace.rootPath || '/'\<close>, which is the
  root's own path when a folder is open. With one folder \<^verbatim>\<open>/a\<close> the key is \<^verbatim>\<open>/a\<close>, with
  no folder it is \<^verbatim>\<open>/\<close>: no key is common to the two single-root activations.
\<close>

theorem single_root_key_is_root_path:
  "\<not> multiRoot wsOne \<and> \<not> multiRoot wsNone
   \<and> clients (activate wsOne initial) = [(''/a'', 0)]
   \<and> clients (activate wsNone initial) = [(''/'', 0)]
   \<and> \<not> (\<exists>key. clients (activate wsOne initial) = [(key, 0)]
              \<and> clients (activate wsNone initial) = [(key, 0)])"
proof -
  have m: "\<not> multiRoot wsOne" "\<not> multiRoot wsNone"
    by (simp_all add: multiRoot_def wsOne_def wsNone_def)
  have k: "rootKey wsOne = ''/a''" "rootKey wsNone = ''/''"
    by (simp_all add: rootKey_def wsOne_def wsNone_def)
  show ?thesis using m by (simp add: activate_single k)
qed

text \<open>
  C7, amended. With no workspace folder or one, activation creates exactly one client
  at once and registers it under the key \<^verbatim>\<open>Workspace.rootPath || '/'\<close>: the root path
  when it is defined and not empty, \<^verbatim>\<open>/\<close> otherwise. No listener is registered, so
  whatever notifications follow, the registry keeps that one entry and no further
  client is created: the trace only grows by settled stops.
\<close>

theorem single_root_one_session:
  assumes "\<not> multiRoot ws"
  shows "clients (activate ws initial) =
      [(case rootPath ws of None \<Rightarrow> ''/'' | Some p \<Rightarrow> if p = [] then ''/'' else p, 0)]
    \<and> created (activate ws initial) = 1
    \<and> \<not> openListener (activate ws initial) \<and> \<not> foldersListener (activate ws initial)
    \<and> clients (run evs (activate ws initial)) = clients (activate ws initial)
    \<and> created (run evs (activate ws initial)) = 1
    \<and> trace (run evs (activate ws initial)) =
        [ClientNew 0 singleRootOptions, ClientStart 0,
         ClientsSet (case rootPath ws of None \<Rightarrow> ''/'' | Some p \<Rightarrow> if p = [] then ''/'' else p) 0]
        @ settlements evs"
proof -
  let ?st = "activate ws initial"
  have k: "rootKey ws = (case rootPath ws of None \<Rightarrow> ''/'' | Some p \<Rightarrow> if p = [] then ''/'' else p)"
    by (simp add: rootKey_def)
  have l: "\<not> openListener ?st" "\<not> foldersListener ?st"
    using assms by (simp_all add: activate_single)
  have "run evs ?st = ?st\<lparr>trace := trace ?st @ settlements evs\<rparr>"
    using l by (rule run_no_listeners)
  then show ?thesis using assms by (simp add: activate_single k)
qed

theorem single_root_one_session_witness:
  "\<not> multiRoot wsOne
   \<and> clients (activate wsOne initial) = [(''/a'', 0)]
   \<and> clients (runLanguageClientOnDemand wsOne docA (activate wsOne initial))
       = [(''/a'', 0), (''file:///a'', 1)]
   \<and> clients (run [(wsOne, DidOpenTextDocument docA), (wsOne, removeA), (wsOne, DidSettleStop 0)]
                 (activate wsOne initial)) = [(''/a'', 0)]
   \<and> created (run [(wsOne, DidOpenTextDocument docA), (wsOne, removeA), (wsOne, DidSettleStop 0)]
                 (activate wsOne initial)) = 1
   \<and> trace (run [(wsOne, DidOpenTextDocument docA), (wsOne, removeA), (wsOne, DidSettleStop 0)]
                 (activate wsOne initial))
       = [ClientNew 0 singleRootOptions, ClientStart 0, ClientsSet ''/a'' 0, StopSettled 0]
   \<and> \<not> multiRoot wsNone
   \<and> clients (run [(wsNone, DidOpenTextDocument docA)] (activate wsNone initial)) = [(''/'', 0)]"
proof -
  have m: "\<not> multiRoot wsOne" "\<not> multiRoot wsNone"
    by (simp_all add: multiRoot_def wsOne_def wsNone_def)
  have p: "rootPath wsOne = Some ''/a''" "rootPath wsNone = None"
    by (simp_all add: wsOne_def wsNone_def)
  have q: "languageId docA = ''python''" "scheme (doc_uri docA) = ''file''"
    "getWorkspaceFolder wsOne (doc_uri docA) = Some folderA"
    by (simp_all add: wsOne_def docA_def)
  have a: "activate wsOne initial =
     \<lparr>clients = [(''/a'', 0)], created = 1,
      subscriptions = [StartDisposable 0, ProgressReporting 0],
      openListener = False, foldersListener = False,
      trace = [ClientNew 0 singleRootOptions, ClientStart 0, ClientsSet ''/a'' 0]\<rparr>"
    by (simp add: activate_single [OF m(1)] rootKey_def p)
  have n: "\<not> Map_has (clients (activate wsOne initial)) (toString (folder_uri folderA))"
    unfolding a by (simp add: Map_has_def folderA_def)
  have d: "clients (runLanguageClientOnDemand wsOne docA (activate wsOne initial))
       = [(''/a'', 0), (''file:///a'', 1)]"
    by (simp add: onDemand_new [OF q n]) (simp add: a folderA_def)
  show ?thesis
    using m d
      single_root_one_session [OF m(1),
        of "[(wsOne, DidOpenTextDocument docA), (wsOne, removeA), (wsOne, DidSettleStop 0)]"]
      single_root_one_session [OF m(2), of "[(wsNone, DidOpenTextDocument docA)]"]
    by (simp add: p removeA_def)
qed

subsection \<open>Deactivation\<close>

lemma deactivate_loop:
  "fold (\<lambda>client (s, ps). (s\<lparr>trace := trace s @ [ClientStop client]\<rparr>, ps @ [stopResult client]))
     cs (st, qs)
   = (st\<lparr>trace := trace st @ map ClientStop cs\<rparr>, qs @ map stopResult cs)"
  by (induction cs arbitrary: st qs) simp_all

lemma deactivate_eq:
  "deactivate stopResult st =
     (st\<lparr>trace := trace st @ map ClientStop (Map_values (clients st))\<rparr>,
      Promise_all (map stopResult (Map_values (clients st))))"
  by (simp add: deactivate_def deactivate_loop)

lemma Promise_all_Resolved: "Promise_all ps = Resolved \<longleftrightarrow> (\<forall>p \<in> set ps. p = Resolved)"
proof
  assume r: "Promise_all ps = Resolved"
  show "\<forall>p \<in> set ps. p = Resolved"
  proof
    fix p assume "p \<in> set ps"
    with r show "p = Resolved"
      by (cases p) (auto simp: Promise_all_def split: if_splits)
  qed
next
  assume "\<forall>p \<in> set ps. p = Resolved"
  then show "Promise_all ps = Resolved" by (auto simp: Promise_all_def)
qed

lemma Promise_all_Rejected: "Promise_all ps = Rejected \<longleftrightarrow> Rejected \<in> set ps"
  by (simp add: Promise_all_def)

text \<open>
  C3, as the specification states it, fails: \<^verbatim>\<open>deactivate\<close> never clears the registry.
  After a single-root activation, with every stop resolving, the promise of
  \<^verbatim>\<open>deactivate\<close> resolves and the registry still holds its entry.
\<close>

theorem deactivate_leaves_entries:
  "snd (deactivate (\<lambda>c. Resolved) (activate wsNone initial)) = Resolved
   \<and> clients (fst (deactivate (\<lambda>c. Resolved) (activate wsNone initial))) \<noteq> []"
proof -
  have m: "\<not> multiRoot wsNone" by (simp add: multiRoot_def wsNone_def)
  show ?thesis
    by (simp add: deactivate_eq activate_single [OF m] Map_values_def Promise_all_def)
qed

text \<open>
  C3, amended. \<^verbatim>\<open>deactivate\<close> calls \<^verbatim>\<open>stop()\<close> on every registered client, in the
  order of the registry, and changes nothing else: the registry is the same after as
  before. Its promise resolves exactly when every stop resolves, and rejects exactly
  when some stop rejects.
\<close>

theorem deactivate_stops_all_keeps_registry:
  "fst (deactivate stopResult st) =
      st\<lparr>trace := trace st @ map ClientStop (Map_values (clients st))\<rparr>
   \<and> clients (fst (deactivate stopResult st)) = clients st
   \<and> (snd (deactivate stopResult st) = Resolved
        \<longleftrightarrow> (\<forall>c \<in> set (Map_values (clients st)). stopResult c = Resolved))
   \<and> (snd (deactivate stopResult st) = Rejected
        \<longleftrightarrow> (\<exists>c \<in> set (Map_values (clients st)). stopResult c = Rejected))"
proof -
  have 1: "fst (deactivate stopResult st) =
      st\<lparr>trace := trace st @ map ClientStop (Map_values (clients st))\<rparr>"
    by (simp add: deactivate_eq)
  have 2: "(snd (deactivate stopResult st) = Resolved)
        = (\<forall>c \<in> set (Map_values (clients st)). stopResult c = Resolved)"
    by (simp add: deactivate_eq Promise_all_Resolved)
  have 3: "(snd (deactivate stopResult st) = Rejected)
        = (\<exists>c \<in> set (Map_values (clients st)). stopResult c = Rejected)"
    by (simp add: deactivate_eq Promise_all_Rejected image_iff) metis
  from 1 2 3 show ?thesis by simp
qed

theorem deactivate_stops_all_keeps_registry_witness:
  "clients (fst (deactivate (\<lambda>c. Resolved) (activate wsMulti initial))) = [(''file:///a'', 0)]
   \<and> trace (fst (deactivate (\<lambda>c. Resolved) (activate wsMulti initial)))
       = trace (activate wsMulti initial) @ [ClientStop 0]
   \<and> snd (deactivate (\<lambda>c. Resolved) (activate wsMulti initial)) = Resolved"
  using deactivate_stops_all_keeps_registry [of "\<lambda>c. Resolved" "activate wsMulti initial"]
  by (simp add: activate_wsMulti Map_values_def)

subsection \<open>The order of deletion and stop\<close>

lemma replay_append: "replay (xs @ ys) reg = replay ys (replay xs reg)"
  by (induction xs reg rule: replay.induct) simp_all

lemma delete_then_stop_append:
  "delete_then_stop reg xs \<Longrightarrow> delete_then_stop (replay xs reg) ys
   \<Longrightarrow> delete_then_stop reg (xs @ ys)"
  by (induction reg xs rule: delete_then_stop.induct) simp_all

lemma trace_ok_extend:
  assumes "trace_ok st" and "delete_then_stop (clients st) tr"
    and "trace st' = trace st @ tr" and "clients st' = replay tr (clients st)"
  shows "trace_ok st'"
  using assms by (simp add: trace_ok_def replay_append delete_then_stop_append)

lemma onDemand_trace_ok: "trace_ok st \<Longrightarrow> trace_ok (runLanguageClientOnDemand ws d st)"
proof (cases rule: onDemand_cases [of ws d st])
  case same
  assume "trace_ok st"
  then show ?thesis using same by simp
next
  case (new f)
  assume "trace_ok st"
  then show ?thesis
    by (rule trace_ok_extend [where tr = "[ClientNew (created st) (onDemandOptions f),
        ClientStart (created st), ClientsSet (toString (folder_uri f)) (created st)]"])
      (simp_all add: onDemand_new [OF new])
qed

lemma stopRemoved_trace_ok: "trace_ok st \<Longrightarrow> trace_ok (stopRemovedFolder f st)"
proof (cases "Map_get (clients st) (toString (folder_uri f))")
  case None
  assume "trace_ok st"
  then show ?thesis using None by (simp add: stopRemoved_absent)
next
  case (Some c)
  assume "trace_ok st"
  then show ?thesis
    by (rule trace_ok_extend [where tr = "[ClientsDelete (toString (folder_uri f)), ClientStop c]"])
      (simp_all add: stopRemoved_present [OF Some] Some)
qed

lemma handle_trace_ok: "trace_ok st \<Longrightarrow> trace_ok (handle e st)"
proof (cases e)
  case (Pair ws ev)
  assume t: "trace_ok st"
  show ?thesis
  proof (cases ev)
    case (DidOpenTextDocument d)
    then show ?thesis using Pair t by (simp add: onDemand_trace_ok)
  next
    case (DidChangeWorkspaceFolders c)
    then show ?thesis using Pair t
      by (simp add: onDidChangeWorkspaceFolders_def fold_preserves [where P = trace_ok]
          stopRemoved_trace_ok)
  next
    case (DidSettleStop c)
    from t have "trace_ok (st\<lparr>trace := trace st @ [StopSettled c]\<rparr>)"
      by (rule trace_ok_extend [where tr = "[StopSettled c]"]) simp_all
    then show ?thesis using Pair DidSettleStop by simp
  qed
qed

lemma activate_trace_ok: "trace_ok (activate ws initial)"
proof (cases "multiRoot ws")
  case True
  have "trace_ok (initial\<lparr>openListener := True\<rparr>)" by (simp add: trace_ok_def initial_def)
  then have "trace_ok (fold (runLanguageClientOnDemand ws) (textDocuments ws) (initial\<lparr>openListener := True\<rparr>))"
    by (rule fold_preserves [where P = trace_ok, rotated]) (rule onDemand_trace_ok)
  then show ?thesis using True by (simp add: activate_def Let_def trace_ok_def)
next
  case False
  then show ?thesis by (simp add: activate_single trace_ok_def)
qed

text \<open>
  C4, as the specification states it, fails: the folders listener calls
  \<^verbatim>\<open>clients.delete\<close> first and \<^verbatim>\<open>client.stop()\<close> second. Removing the one folder that
  has a client gives a trace in which the deletion comes before the stop.
\<close>

theorem delete_precedes_stop:
  "trace (run [(wsMulti, removeA)] (activate wsMulti initial)) =
     [ClientNew 0 (onDemandOptions folderA), ClientStart 0, ClientsSet ''file:///a'' 0,
      ClientsDelete ''file:///a'', ClientStop 0]
   \<and> \<not> stop_precedes_delete [] [] (trace (run [(wsMulti, removeA)] (activate wsMulti initial)))"
proof -
  have "trace (run [(wsMulti, removeA)] (activate wsMulti initial)) =
     [ClientNew 0 (onDemandOptions folderA), ClientStart 0, ClientsSet ''file:///a'' 0,
      ClientsDelete ''file:///a'', ClientStop 0]"
    unfolding run_def removeA_def activate_wsMulti
    by (simp add: onDidChangeWorkspaceFolders_def stopRemovedFolder_def Map_get_def folderA_def)
  then show ?thesis by (simp add: Map_get_def)
qed

text \<open>
  C4, amended. In every run from activation, each deletion of an entry is followed at
  once by the call of \<^verbatim>\<open>stop()\<close> on the client that the entry held, and the registry
  is what the trace's sets and deletions build. For one removed folder that has a
  client: the entry is deleted, then the client is asked to stop, and the key is gone.
\<close>

theorem stop_follows_delete:
  "delete_then_stop [] (trace (run evs (activate ws initial)))
   \<and> replay (trace (run evs (activate ws initial))) [] = clients (run evs (activate ws initial))
   \<and> (Map_get (clients st) (toString (folder_uri f)) = Some c \<longrightarrow>
        trace (stopRemovedFolder f st)
          = trace st @ [ClientsDelete (toString (folder_uri f)), ClientStop c]
        \<and> Map_get (clients (stopRemovedFolder f st)) (toString (folder_uri f)) = None)"
proof -
  have "trace_ok (run evs (activate ws initial))"
    unfolding run_def using activate_trace_ok
    by (rule fold_preserves [where P = trace_ok, rotated]) (rule handle_trace_ok)
  then show ?thesis by (simp add: trace_ok_def stopRemoved_present get_Map_delete)
qed

theorem stop_follows_delete_witness:
  "delete_then_stop [] (trace (run [(wsMulti, removeA)] (activate wsMulti initial)))
   \<and> Map_get (clients (activate wsMulti initial)) (toString (folder_uri folderA)) = Some 0
   \<and> trace (stopRemovedFolder folderA (activate wsMulti initial))
       = trace (activate wsMulti initial) @ [ClientsDelete ''file:///a'', ClientStop 0]
   \<and> Map_get (clients (stopRemovedFolder folderA (activate wsMulti initial))) ''file:///a'' = None"
proof -
  have g: "Map_get (clients (activate wsMulti initial)) (toString (folder_uri folderA)) = Some 0"
    unfolding activate_wsMulti by (simp add: Map_get_def folderA_def)
  have k: "toString (folder_uri folderA) = ''file:///a''" by (simp add: folderA_def)
  show ?thesis
    using g k stop_follows_delete [of "[(wsMulti, removeA)]" wsMulti "activate wsMulti initial" folderA 0]
    by simp
qed

subsection \<open>Removing a folder and opening a document of it again\<close>

lemma get_append_absent: "\<not> Map_has m k \<Longrightarrow> Map_get (m @ [(k, v)]) k = Some v"
  using get_Map_set [of m k v k] by (simp add: Map_set_absent)

lemma remove_then_open:
  assumes l: "openListener st" "foldersListener st"
    and c: "Map_get (clients st) (toString (folder_uri f)) = Some c"
    and r: "removed ev = [f]"
    and q: "languageId d = ''python''" "scheme (doc_uri d) = ''file''"
    and g: "getWorkspaceFolder ws' (doc_uri d) = Some f'"
    and k: "toString (folder_uri f') = toString (folder_uri f)"
  shows "run [(ws, DidChangeWorkspaceFolders ev), (ws', DidOpenTextDocument d)] st =
     st\<lparr>clients := Map_delete (clients st) (toString (folder_uri f)) @
                      [(toString (folder_uri f), created st)],
        created := Suc (created st),
        subscriptions := subscriptions st @
          [StartDisposable (created st), ProgressReporting (created st)],
        trace := trace st @
          [ClientsDelete (toString (folder_uri f)), ClientStop c,
           ClientNew (created st) (onDemandOptions f'), ClientStart (created st),
           ClientsSet (toString (folder_uri f)) (created st)]\<rparr>"
proof -
  let ?k = "toString (folder_uri f)"
  let ?st1 = "st\<lparr>clients := Map_delete (clients st) ?k,
                 trace := trace st @ [ClientsDelete ?k, ClientStop c]\<rparr>"
  have 1: "handle (ws, DidChangeWorkspaceFolders ev) st = ?st1"
    using l r by (simp add: onDidChangeWorkspaceFolders_def stopRemoved_present [OF c])
  have n: "\<not> Map_has (clients ?st1) (toString (folder_uri f'))"
    by (simp add: k Map_has_Map_delete)
  have 2: "handle (ws', DidOpenTextDocument d) ?st1 = runLanguageClientOnDemand ws' d ?st1"
    using l by simp
  have a: "\<not> Map_has (Map_delete (clients st) ?k) ?k" by (simp add: Map_has_Map_delete)
  show ?thesis
    unfolding run_def
    by (simp only: fold_simps comp_def 1 2 onDemand_new [OF q g n])
       (simp add: k Map_set_absent [OF a])
qed

lemma example_reopen:
  "run [(wsMulti, removeA), (wsMulti, DidOpenTextDocument docA2)] (activate wsMulti initial) =
     \<lparr>clients = [(''file:///a'', 1)], created = 2,
      subscriptions = [StartDisposable 0, ProgressReporting 0, StartDisposable 1, ProgressReporting 1],
      openListener = True, foldersListener = True,
      trace = [ClientNew 0 (onDemandOptions folderA), ClientStart 0, ClientsSet ''file:///a'' 0,
               ClientsDelete ''file:///a'', ClientStop 0,
               ClientNew 1 (onDemandOptions folderA), ClientStart 1, ClientsSet ''file:///a'' 1]\<rparr>"
proof -
  have l: "openListener (activate wsMulti initial)" "foldersListener (activate wsMulti initial)"
    unfolding activate_wsMulti by simp_all
  have c: "Map_get (clients (activate wsMulti initial)) (toString (folder_uri folderA)) = Some 0"
    unfolding activate_wsMulti by (simp add: Map_get_def folderA_def)
  have r: "removed \<lparr>added = [], removed = [folderA]\<rparr> = [folderA]" by simp
  have q: "languageId docA2 = ''python''" "scheme (doc_uri docA2) = ''file''"
    by (simp_all add: docA2_def)
  have g: "getWorkspaceFolder wsMulti (doc_uri docA2) = Some folderA"
    by (simp add: wsMulti_def docA2_def)
  show ?thesis
    unfolding removeA_def remove_then_open [OF l c r q g refl]
    by (simp add: activate_wsMulti Map_delete_def folderA_def)
qed

text \<open>
  C6, as the specification states it, fails: nothing in the code waits for a stop.
  Folder a is removed and a document of it is opened before the stop of client 0 has
  settled: client 1 of the same folder is started at once.
\<close>

theorem start_does_not_await_stop:
  "trace (run [(wsMulti, removeA), (wsMulti, DidOpenTextDocument docA2)] (activate wsMulti initial))
     = [ClientNew 0 (onDemandOptions folderA), ClientStart 0, ClientsSet ''file:///a'' 0,
        ClientsDelete ''file:///a'', ClientStop 0,
        ClientNew 1 (onDemandOptions folderA), ClientStart 1, ClientsSet ''file:///a'' 1]
   \<and> \<not> start_awaits_stop [] []
        (trace (run [(wsMulti, removeA), (wsMulti, DidOpenTextDocument docA2)]
                  (activate wsMulti initial)))"
  unfolding example_reopen by (simp add: onDemandOptions_def)

text \<open>
  C6, amended. When a folder that has a client is removed and a qualifying document of
  the same folder is opened next, the old client is asked to stop and, in the
  document-opened handler, a new client is created, started and registered under the
  key, with no settled stop in between: the code does not serialise per root.
\<close>

theorem reopened_root_starts_at_once:
  assumes "openListener st" and "foldersListener st"
    and "Map_get (clients st) (toString (folder_uri f)) = Some c"
    and "removed ev = [f]"
    and "languageId d = ''python''" and "scheme (doc_uri d) = ''file''"
    and "getWorkspaceFolder ws' (doc_uri d) = Some f'"
    and "toString (folder_uri f') = toString (folder_uri f)"
  shows "trace (run [(ws, DidChangeWorkspaceFolders ev), (ws', DidOpenTextDocument d)] st) =
      trace st @
        [ClientsDelete (toString (folder_uri f)), ClientStop c,
         ClientNew (created st) (onDemandOptions f'), ClientStart (created st),
         ClientsSet (toString (folder_uri f)) (created st)]
    \<and> Map_get (clients (run [(ws, DidChangeWorkspaceFolders ev), (ws', DidOpenTextDocument d)] st))
        (toString (folder_uri f)) = Some (created st)
    \<and> created (run [(ws, DidChangeWorkspaceFolders ev), (ws', DidOpenTextDocument d)] st)
        = Suc (created st)"
  unfolding remove_then_open [OF assms]
  by (simp add: get_append_absent Map_has_Map_delete)

theorem reopened_root_starts_at_once_witness:
  "openListener (activate wsMulti initial) \<and> foldersListener (activate wsMulti initial)
   \<and> Map_get (clients (activate wsMulti initial)) (toString (folder_uri folderA)) = Some 0
   \<and> languageId docA2 = ''python'' \<and> scheme (doc_uri docA2) = ''file''
   \<and> getWorkspaceFolder wsMulti (doc_uri docA2) = Some folderA
   \<and> trace (run [(wsMulti, DidChangeWorkspaceFolders \<lparr>added = [], removed = [folderA]\<rparr>),
                  (wsMulti, DidOpenTextDocument docA2)] (activate wsMulti initial))
       = trace (activate wsMulti initial) @
           [ClientsDelete ''file:///a'', ClientStop 0,
            ClientNew 1 (onDemandOptions folderA), ClientStart 1, ClientsSet ''file:///a'' 1]
   \<and> Map_get (clients (run [(wsMulti, DidChangeWorkspaceFolders \<lparr>added = [], removed = [folderA]\<rparr>),
                  (wsMulti, DidOpenTextDocument docA2)] (activate wsMulti initial)))
         ''file:///a'' = Some 1"
proof -
  have l: "openListener (activate wsMulti initial)" "foldersListener (activate wsMulti initial)"
    unfolding activate_wsMulti by simp_all
  have c: "Map_get (clients (activate wsMulti initial)) (toString (folder_uri folderA)) = Some 0"
    unfolding activate_wsMulti by (simp add: Map_get_def folderA_def)
  have r: "removed \<lparr>added = [], removed = [folderA]\<rparr> = [folderA]" by simp
  have q: "languageId docA2 = ''python''" "scheme (doc_uri docA2) = ''file''"
    by (simp_all add: docA2_def)
  have g: "getWorkspaceFolder wsMulti (doc_uri docA2) = Some folderA"
    by (simp add: wsMulti_def docA2_def)
  have k: "toString (folder_uri folderA) = ''file:///a''" by (simp add: folderA_def)
  have n: "created (activate wsMulti initial) = 1" unfolding activate_wsMulti by simp
  show ?thesis
    using l c q g reopened_root_starts_at_once [OF l c r q g refl, of wsMulti]
    by (simp add: k n)
qed

end
